theory Spec2Isabelle
  imports Complex_Main "HOL-Library.Multiset"
begin

section \<open>JavaScript numbers\<close>

text \<open>
  The animator computes with JavaScript numbers, IEEE 754 doubles: the target rate \<open>fps\<close>
  is any \<open>number\<close> a caller passes, \<open>1000 / this.targetFPS\<close> and \<open>1000 / delta\<close> round
  their quotient to a double, and \<open>1000 / delta\<close> divides by zero when two clock readings
  coincide. A number is modelled as the rational it denotes or one of the three special
  values. The arithmetic of the program, \<open>-\<close> and \<open>/\<close>, rounds the exact result to the
  nearest double, ties to even, as the hardware does; comparisons and \<open>Math.min\<close> are
  exact. The sign of zero is not modelled: no divisor of the program can be a negative
  zero, as the difference of two distinct doubles is never zero and that of two equal
  ones is \<open>+0\<close>, and the target rate is a divisor only when it is greater than zero.
\<close>

datatype jsnum = Fin rat | PInf | NInf | NaN

subsection \<open>Rounding to a double\<close>

text \<open>
  For \<open>a > 0\<close>, \<open>exponent a\<close> is the integer \<open>e\<close> with \<open>2 ^ e \<le> a < 2 ^ (e + 1)\<close>, found
  by halving or doubling \<open>a\<close> until it lies between 1 and 2.
\<close>

function log2_down :: "rat \<Rightarrow> int" where
  "log2_down a = (if 2 \<le> a then log2_down (a / 2) + 1 else 0)"
  by pat_completeness auto
termination
proof (relation "measure (\<lambda>a. nat \<lfloor>a\<rfloor>)")
  show "wf (measure (\<lambda>a::rat. nat \<lfloor>a\<rfloor>))" by simp
next
  fix a :: rat
  assume a: "2 \<le> a"
  have "a < of_int \<lfloor>a\<rfloor> + 1" by linarith
  moreover from a have "a / 2 \<le> a - 1" by simp
  ultimately have "a / 2 < of_int \<lfloor>a\<rfloor>" by linarith
  then have "\<lfloor>a / 2\<rfloor> < \<lfloor>a\<rfloor>" by (simp add: floor_less_iff)
  moreover have "0 < \<lfloor>a\<rfloor>" using a by simp
  ultimately show "(a / 2, a) \<in> measure (\<lambda>a. nat \<lfloor>a\<rfloor>)" by simp
qed

declare log2_down.simps [simp del]

function log2_up :: "rat \<Rightarrow> int" where
  "log2_up a = (if 0 < a \<and> a < 1 then log2_up (2 * a) - 1 else 0)"
  by pat_completeness auto
termination
proof (relation "measure (\<lambda>a. nat \<lfloor>1 / a\<rfloor>)")
  show "wf (measure (\<lambda>a::rat. nat \<lfloor>1 / a\<rfloor>))" by simp
next
  fix a :: rat
  assume a: "0 < a \<and> a < 1"
  define x where "x = 1 / a"
  from a have x1: "1 \<le> x" by (simp add: x_def)
  then have "1 \<le> \<lfloor>x\<rfloor>" by simp
  then have "(1::rat) \<le> of_int \<lfloor>x\<rfloor>" by linarith
  moreover have "x < of_int \<lfloor>x\<rfloor> + 1" by linarith
  ultimately have "x / 2 < of_int \<lfloor>x\<rfloor>" by linarith
  then have "\<lfloor>x / 2\<rfloor> < \<lfloor>x\<rfloor>" by (simp add: floor_less_iff)
  moreover have "1 / (2 * a) = x / 2" by (simp add: x_def)
  ultimately have "\<lfloor>1 / (2 * a)\<rfloor> < \<lfloor>1 / a\<rfloor>" by (simp only: x_def)
  moreover from x1 have "0 < \<lfloor>1 / a\<rfloor>" by (simp add: x_def)
  ultimately show "(2 * a, a) \<in> measure (\<lambda>a. nat \<lfloor>1 / a\<rfloor>)" by simp
qed

declare log2_up.simps [simp del]

definition exponent :: "rat \<Rightarrow> int" where
  "exponent a = (if 1 \<le> a then log2_down a else log2_up a)"

definition pow2 :: "int \<Rightarrow> rat" where
  "pow2 k = (if 0 \<le> k then 2 ^ nat k else 1 / 2 ^ nat (- k))"

text \<open>The nearest integer, and the even one of the two when they are equally near.\<close>

definition round_half_even :: "rat \<Rightarrow> int" where
  "round_half_even x =
     (let f = \<lfloor>x\<rfloor>; r = x - of_int f
      in if r < 1 / 2 then f else if 1 / 2 < r then f + 1 else if even f then f else f + 1)"

text \<open>
  The double nearest to \<open>x\<close>: a multiple of \<open>2 ^ (e - 52)\<close>, where \<open>e\<close> is the exponent of
  \<open>x\<close> and at least \<open>-1022\<close> (below that the doubles are subnormal and equally
  spaced); what rounds to \<open>2 ^ 1024\<close> or beyond is an infinity.
\<close>

definition round_double :: "rat \<Rightarrow> jsnum" where
  "round_double x =
     (if x = 0 then Fin 0
      else let a = \<bar>x\<bar>;
               e = max (exponent a) (- 1022);
               q = pow2 (e - 52);
               r = of_int (round_half_even (a / q)) * q
           in if 2 ^ 1024 \<le> r then (if 0 < x then PInf else NInf)
              else Fin (if 0 < x then r else - r))"

subsection \<open>Operations on numbers\<close>

text \<open>Truthiness of a number: \<open>0\<close> and \<open>NaN\<close> are falsy.\<close>

fun js_truthy :: "jsnum \<Rightarrow> bool" where
  "js_truthy (Fin r) = (r \<noteq> 0)"
| "js_truthy PInf = True"
| "js_truthy NInf = True"
| "js_truthy NaN = False"

text \<open>The comparisons \<open>a > b\<close> and \<open>a >= b\<close>: false as soon as one side is \<open>NaN\<close>.\<close>

fun js_gt :: "jsnum \<Rightarrow> jsnum \<Rightarrow> bool" where
  "js_gt (Fin a) (Fin b) = (b < a)"
| "js_gt PInf (Fin b) = True"
| "js_gt PInf NInf = True"
| "js_gt (Fin a) NInf = True"
| "js_gt _ _ = False"

fun js_ge :: "jsnum \<Rightarrow> jsnum \<Rightarrow> bool" where
  "js_ge (Fin a) (Fin b) = (b \<le> a)"
| "js_ge NaN _ = False"
| "js_ge _ NaN = False"
| "js_ge PInf _ = True"
| "js_ge _ NInf = True"
| "js_ge _ _ = False"

text \<open>\<open>Math.min(a, b)\<close>: \<open>NaN\<close> if either argument is \<open>NaN\<close>.\<close>

fun js_min :: "jsnum \<Rightarrow> jsnum \<Rightarrow> jsnum" where
  "js_min NaN _ = NaN"
| "js_min _ NaN = NaN"
| "js_min a b = (if js_gt a b then b else a)"

text \<open>The difference \<open>a - b\<close>, rounded.\<close>

fun js_sub :: "jsnum \<Rightarrow> jsnum \<Rightarrow> jsnum" where
  "js_sub (Fin a) (Fin b) = round_double (a - b)"
| "js_sub NaN _ = NaN"
| "js_sub _ NaN = NaN"
| "js_sub PInf PInf = NaN"
| "js_sub NInf NInf = NaN"
| "js_sub PInf _ = PInf"
| "js_sub NInf _ = NInf"
| "js_sub (Fin a) PInf = NInf"
| "js_sub (Fin a) NInf = PInf"

text \<open>The division \<open>a / b\<close>, rounded, with a zero divisor read as \<open>+0\<close>.\<close>

fun js_div :: "jsnum \<Rightarrow> jsnum \<Rightarrow> jsnum" where
  "js_div (Fin a) (Fin b) =
     (if b \<noteq> 0 then round_double (a / b)
      else if 0 < a then PInf else if a < 0 then NInf else NaN)"
| "js_div (Fin a) PInf = Fin 0"
| "js_div (Fin a) NInf = Fin 0"
| "js_div PInf (Fin b) = (if 0 \<le> b then PInf else NInf)"
| "js_div NInf (Fin b) = (if 0 \<le> b then NInf else PInf)"
| "js_div _ _ = NaN"

definition MAX_FPS :: jsnum where
  "MAX_FPS = Fin 60"

section \<open>The animator\<close>

text \<open>
  A handler is a JavaScript function; only its identity matters to the animator
  (\<open>indexOf\<close> compares by identity), so a handler is a name. Handlers are taken not to call
  back into the animator and not to throw: an invocation is recorded in the log \<open>calls\<close>
  and changes nothing else.
\<close>

type_synonym handler = nat

text \<open>
  A clock reading is a finite number of milliseconds. \<open>Date.now()\<close> returns whole
  milliseconds; the fake clock of the test suite is set to fractional ones
  (\<open>Date.now() + 1000 / fps\<close>). A reading is modelled as the rational it denotes; the
  statements below hold for every rational reading, the doubles among them.
\<close>

type_synonym time = rat

datatype call =
    AnimateCall handler jsnum
  | StartCall handler
  | PauseCall handler
  | ResumeCall handler
  | StopCall handler

text \<open>The constructor's argument \<open>{ fps?, pauseOnHidden?, resumeOnShown? }\<close>.\<close>

record AnimatorParams =
  param_fps :: "jsnum option"
  param_pauseOnHidden :: "bool option"
  param_resumeOnShown :: "bool option"

text \<open>
  The fields of the class, and two fields for what the animator does to its environment:
  \<open>requested\<close> counts the frame callbacks handed to \<open>requestAnimationFrame\<close> that the
  frame clock has not run yet, \<open>calls\<close> is the log of handler invocations, oldest first.
\<close>

record animator =
  targetFPS :: jsnum
  pauseOnHidden :: bool
  resumeOnShown :: bool
  ignoreTargetFPS :: bool
  performingFPS :: jsnum
  startTime :: time
  previousAnimateTime :: time
  isPaused :: bool
  isPauseRequested :: bool
  animateEvents :: "handler list"
  startEvents :: "handler list"
  pauseEvents :: "handler list"
  resumeEvents :: "handler list"
  stopEvents :: "handler list"
  requested :: nat
  calls :: "call list"

text \<open>\<open>fps ? fps : MAX_FPS\<close> and \<open>!fps\<close> for an optional \<open>fps\<close>.\<close>

fun truthy :: "jsnum option \<Rightarrow> bool" where
  "truthy None = False"
| "truthy (Some f) = js_truthy f"

definition new_Animator :: "AnimatorParams \<Rightarrow> animator" where
  "new_Animator p =
     \<lparr> targetFPS = (case param_fps p of
                     Some f \<Rightarrow> if js_truthy f then f else MAX_FPS
                   | None \<Rightarrow> MAX_FPS),
       pauseOnHidden = (case param_pauseOnHidden p of None \<Rightarrow> True | Some b \<Rightarrow> b),
       resumeOnShown = (case param_resumeOnShown p of None \<Rightarrow> True | Some b \<Rightarrow> b),
       ignoreTargetFPS = (\<not> truthy (param_fps p)),
       performingFPS = Fin 0,
       startTime = 0,
       previousAnimateTime = 0,
       isPaused = False,
       isPauseRequested = False,
       animateEvents = [],
       startEvents = [],
       pauseEvents = [],
       resumeEvents = [],
       stopEvents = [],
       requested = 0,
       calls = [] \<rparr>"

text \<open>The argument \<open>{}\<close>, the constructor's default.\<close>

definition no_params :: AnimatorParams where
  "no_params = \<lparr> param_fps = None, param_pauseOnHidden = None, param_resumeOnShown = None \<rparr>"

subsection \<open>Subscription registries\<close>

text \<open>
  \<open>addEvent\<close> and \<open>removeEvent\<close> take one of the five arrays of the instance; the
  array is named here by a tag.
\<close>

datatype registry = AnimateEvents | StartEvents | PauseEvents | ResumeEvents | StopEvents

fun events :: "registry \<Rightarrow> animator \<Rightarrow> handler list" where
  "events AnimateEvents s = animateEvents s"
| "events StartEvents s = startEvents s"
| "events PauseEvents s = pauseEvents s"
| "events ResumeEvents s = resumeEvents s"
| "events StopEvents s = stopEvents s"

fun set_events :: "registry \<Rightarrow> handler list \<Rightarrow> animator \<Rightarrow> animator" where
  "set_events AnimateEvents xs s = s\<lparr>animateEvents := xs\<rparr>"
| "set_events StartEvents xs s = s\<lparr>startEvents := xs\<rparr>"
| "set_events PauseEvents xs s = s\<lparr>pauseEvents := xs\<rparr>"
| "set_events ResumeEvents xs s = s\<lparr>resumeEvents := xs\<rparr>"
| "set_events StopEvents xs s = s\<lparr>stopEvents := xs\<rparr>"

text \<open>\<open>Array.prototype.indexOf\<close>: the first index of the element, or \<open>-1\<close>.\<close>

fun indexOf :: "'a list \<Rightarrow> 'a \<Rightarrow> int" where
  "indexOf [] e = - 1"
| "indexOf (x # xs) e =
     (if x = e then 0 else (let i = indexOf xs e in if i = - 1 then - 1 else i + 1))"

text \<open>\<open>events.splice(index, 1)\<close>: drop the one element at \<open>index\<close>.\<close>

definition splice1 :: "nat \<Rightarrow> 'a list \<Rightarrow> 'a list" where
  "splice1 index xs = take index xs @ drop (Suc index) xs"

definition removeEvent :: "handler \<Rightarrow> registry \<Rightarrow> animator \<Rightarrow> animator" where
  "removeEvent event r s =
     (let index = indexOf (events r s) event
      in if index \<noteq> - 1 then set_events r (splice1 (nat index) (events r s)) s else s)"

text \<open>
  \<open>addEvent\<close> pushes the handler and returns the closure
  \<open>() => this.removeEvent(event, events)\<close>.
\<close>

definition addEvent :: "handler \<Rightarrow> registry \<Rightarrow> animator \<Rightarrow> animator \<times> (animator \<Rightarrow> animator)" where
  "addEvent event r s = (set_events r (events r s @ [event]) s, removeEvent event r)"

definition add :: "handler \<Rightarrow> animator \<Rightarrow> animator \<times> (animator \<Rightarrow> animator)" where
  "add animateEvent s = addEvent animateEvent AnimateEvents s"

definition onStart :: "handler \<Rightarrow> animator \<Rightarrow> animator \<times> (animator \<Rightarrow> animator)" where
  "onStart startEvent s = addEvent startEvent StartEvents s"

definition onPause :: "handler \<Rightarrow> animator \<Rightarrow> animator \<times> (animator \<Rightarrow> animator)" where
  "onPause pauseEvent s = addEvent pauseEvent PauseEvents s"

definition onResume :: "handler \<Rightarrow> animator \<Rightarrow> animator \<times> (animator \<Rightarrow> animator)" where
  "onResume resumeEvent s = addEvent resumeEvent ResumeEvents s"

definition onStop :: "handler \<Rightarrow> animator \<Rightarrow> animator \<times> (animator \<Rightarrow> animator)" where
  "onStop stopEvent s = addEvent stopEvent StopEvents s"

subsection \<open>The animation loop\<close>

text \<open>
  Every operation takes the reading \<open>now\<close> of \<open>Date.now()\<close> at which it runs; one
  synchronous call reads the same value throughout.
\<close>

definition requestAnimationFrame :: "animator \<Rightarrow> animator" where
  "requestAnimationFrame s = s\<lparr>requested := Suc (requested s)\<rparr>"

definition animate :: "time \<Rightarrow> animator \<Rightarrow> animator" where
  "animate now s =
     (if js_gt (targetFPS s) (Fin 0) \<and> \<not> isPaused s \<and> 0 < startTime s then
        let s1 = requestAnimationFrame s;
            currentTime = now;
            delta = js_sub (Fin currentTime) (Fin (previousAnimateTime s1));
            delay = js_div (Fin 1000) (targetFPS s1)
        in if ignoreTargetFPS s1 \<or> js_ge delta delay then
             s1\<lparr> performingFPS := js_div (Fin 1000) delta,
                 calls := calls s1 @ map (\<lambda>event. AnimateCall event delta) (animateEvents s1),
                 previousAnimateTime := currentTime \<rparr>
           else s1
      else s)"

text \<open>
  The frame clock runs one pending callback \<open>() => this.animate()\<close>; with none pending
  nothing runs.
\<close>

definition frame :: "time \<Rightarrow> animator \<Rightarrow> animator" where
  "frame now s =
     (if requested s = 0 then s else animate now (s\<lparr>requested := requested s - 1\<rparr>))"

definition getPerformingFPS :: "animator \<Rightarrow> jsnum" where
  "getPerformingFPS s = performingFPS s"

definition setTargetFPS :: "jsnum \<Rightarrow> animator \<Rightarrow> animator" where
  "setTargetFPS f s = s\<lparr>targetFPS := js_min f MAX_FPS\<rparr>"

definition setPauseOnHidden :: "bool \<Rightarrow> animator \<Rightarrow> animator" where
  "setPauseOnHidden b s = s\<lparr>pauseOnHidden := b\<rparr>"

definition setResumeOnShown :: "bool \<Rightarrow> animator \<Rightarrow> animator" where
  "setResumeOnShown b s = s\<lparr>resumeOnShown := b\<rparr>"

definition start :: "time \<Rightarrow> animator \<Rightarrow> animator" where
  "start now s =
     (if startTime s = 0 then
        let currentTime = now;
            s1 = s\<lparr>startTime := currentTime\<rparr>;
            s2 = s1\<lparr>previousAnimateTime := currentTime\<rparr>;
            s3 = s2\<lparr>calls := calls s2 @ map StartCall (startEvents s2)\<rparr>
        in animate now s3
      else s)"

definition pause :: "animator \<Rightarrow> animator" where
  "pause s =
     (if 0 < startTime s \<and> \<not> isPaused s then
        let s1 = s\<lparr>isPaused := True\<rparr>
        in s1\<lparr>calls := calls s1 @ map PauseCall (pauseEvents s1)\<rparr>
      else s)"

definition resume :: "time \<Rightarrow> animator \<Rightarrow> animator" where
  "resume now s =
     (if \<not> isPauseRequested s \<and> isPaused s then
        let s1 = s\<lparr>isPaused := False\<rparr>;
            s2 = s1\<lparr>calls := calls s1 @ map ResumeCall (resumeEvents s1)\<rparr>;
            s3 = s2\<lparr>previousAnimateTime := now\<rparr>
        in animate now s3
      else s)"

definition stop :: "animator \<Rightarrow> animator" where
  "stop s =
     (if 0 < startTime s then
        let s1 = s\<lparr>startTime := 0\<rparr>;
            s2 = s1\<lparr>isPaused := False\<rparr>
        in s2\<lparr>calls := calls s2 @ map StopCall (stopEvents s2)\<rparr>
      else s)"

text \<open>
  The instance's listeners on the window's visibility events. The module keeps one pair of
  them per instance in \<open>windowListeners\<close> and calls each on every event; one instance is
  modelled here.
\<close>

definition onHidden :: "animator \<Rightarrow> animator" where
  "onHidden s = (if pauseOnHidden s then pause (s\<lparr>isPauseRequested := True\<rparr>) else s)"

definition onShow :: "time \<Rightarrow> animator \<Rightarrow> animator" where
  "onShow now s = (if resumeOnShown s then resume now (s\<lparr>isPauseRequested := False\<rparr>) else s)"

text \<open>\<open>startAnimation(animateEvent, params)\<close>; an omitted \<open>params\<close> is \<open>{}\<close>.\<close>

definition startAnimation :: "time \<Rightarrow> handler \<Rightarrow> AnimatorParams option \<Rightarrow> animator" where
  "startAnimation now animateEvent params =
     (let animator = new_Animator (case params of None \<Rightarrow> no_params | Some p \<Rightarrow> p);
          animator1 = fst (add animateEvent animator)
      in start now animator1)"

subsection \<open>Operations as data\<close>

text \<open>
  What a caller, the window or the frame clock can do to one instance, with the clock
  reading at which it happens. \<open>Subscribe r e\<close> stands for \<open>add\<close>, \<open>onStart\<close>,
  \<open>onPause\<close>, \<open>onResume\<close> and \<open>onStop\<close> according to the registry, \<open>Unsubscribe r e\<close>
  for a call of a closure that one of them returned.
\<close>

datatype operation =
    Start
  | Pause
  | Resume
  | Stop
  | SetTargetFPS jsnum
  | SetPauseOnHidden bool
  | SetResumeOnShown bool
  | Subscribe registry handler
  | Unsubscribe registry handler
  | WindowHidden
  | WindowShow
  | Frame

fun perform :: "time \<Rightarrow> operation \<Rightarrow> animator \<Rightarrow> animator" where
  "perform now Start s = start now s"
| "perform now Pause s = pause s"
| "perform now Resume s = resume now s"
| "perform now Stop s = stop s"
| "perform now (SetTargetFPS f) s = setTargetFPS f s"
| "perform now (SetPauseOnHidden b) s = setPauseOnHidden b s"
| "perform now (SetResumeOnShown b) s = setResumeOnShown b s"
| "perform now (Subscribe r e) s = fst (addEvent e r s)"
| "perform now (Unsubscribe r e) s = removeEvent e r s"
| "perform now WindowHidden s = onHidden s"
| "perform now WindowShow s = onShow now s"
| "perform now Frame s = frame now s"

fun run :: "(time \<times> operation) list \<Rightarrow> animator \<Rightarrow> animator" where
  "run [] s = s"
| "run ((now, op) # rest) s = run rest (perform now op s)"

text \<open>The lifecycle operations and the setters, as opposed to subscription.\<close>

fun lifecycle_or_setter :: "operation \<Rightarrow> bool" where
  "lifecycle_or_setter Start = True"
| "lifecycle_or_setter Pause = True"
| "lifecycle_or_setter Resume = True"
| "lifecycle_or_setter Stop = True"
| "lifecycle_or_setter (SetTargetFPS f) = True"
| "lifecycle_or_setter (SetPauseOnHidden b) = True"
| "lifecycle_or_setter (SetResumeOnShown b) = True"
| "lifecycle_or_setter _ = False"

text \<open>Which registry and which handler an entry of the log belongs to.\<close>

fun call_registry :: "call \<Rightarrow> registry" where
  "call_registry (AnimateCall e d) = AnimateEvents"
| "call_registry (StartCall e) = StartEvents"
| "call_registry (PauseCall e) = PauseEvents"
| "call_registry (ResumeCall e) = ResumeEvents"
| "call_registry (StopCall e) = StopEvents"

fun call_handler :: "call \<Rightarrow> handler" where
  "call_handler (AnimateCall e d) = e"
| "call_handler (StartCall e) = e"
| "call_handler (PauseCall e) = e"
| "call_handler (ResumeCall e) = e"
| "call_handler (StopCall e) = e"

definition invokes :: "registry \<Rightarrow> handler \<Rightarrow> call \<Rightarrow> bool" where
  "invokes r e c = (call_registry c = r \<and> call_handler c = e)"

subsection \<open>The lifecycle as the specification words it\<close>

text \<open>
  The state machine of the specification: three states, the externally-paused flag and
  the two policy flags. \<open>start\<close> leaves Stopped only; \<open>pause\<close> leaves Running only;
  \<open>resume\<close> leaves Paused only and not while externally paused; \<open>stop\<close> leads to Stopped
  from anywhere; hidden and shown set and clear the flag and then pause and resume, when
  the policy flag allows.
\<close>

datatype lifecycle = Stopped | Running | Paused

record spec_animator =
  phase :: lifecycle
  pausedExternally :: bool
  spec_pauseOnHidden :: bool
  spec_resumeOnShown :: bool

definition spec_init :: "AnimatorParams \<Rightarrow> spec_animator" where
  "spec_init p =
     \<lparr> phase = Stopped,
       pausedExternally = False,
       spec_pauseOnHidden = (case param_pauseOnHidden p of None \<Rightarrow> True | Some b \<Rightarrow> b),
       spec_resumeOnShown = (case param_resumeOnShown p of None \<Rightarrow> True | Some b \<Rightarrow> b) \<rparr>"

definition spec_start :: "spec_animator \<Rightarrow> spec_animator" where
  "spec_start a = (if phase a = Stopped then a\<lparr>phase := Running\<rparr> else a)"

definition spec_pause :: "spec_animator \<Rightarrow> spec_animator" where
  "spec_pause a = (if phase a = Running then a\<lparr>phase := Paused\<rparr> else a)"

definition spec_resume :: "spec_animator \<Rightarrow> spec_animator" where
  "spec_resume a =
     (if phase a = Paused \<and> \<not> pausedExternally a then a\<lparr>phase := Running\<rparr> else a)"

definition spec_stop :: "spec_animator \<Rightarrow> spec_animator" where
  "spec_stop a = a\<lparr>phase := Stopped\<rparr>"

fun spec_step :: "operation \<Rightarrow> spec_animator \<Rightarrow> spec_animator" where
  "spec_step Start a = spec_start a"
| "spec_step Pause a = spec_pause a"
| "spec_step Resume a = spec_resume a"
| "spec_step Stop a = spec_stop a"
| "spec_step (SetPauseOnHidden b) a = a\<lparr>spec_pauseOnHidden := b\<rparr>"
| "spec_step (SetResumeOnShown b) a = a\<lparr>spec_resumeOnShown := b\<rparr>"
| "spec_step WindowHidden a =
     (if spec_pauseOnHidden a then spec_pause (a\<lparr>pausedExternally := True\<rparr>) else a)"
| "spec_step WindowShow a =
     (if spec_resumeOnShown a then spec_resume (a\<lparr>pausedExternally := False\<rparr>) else a)"
| "spec_step _ a = a"

fun spec_run :: "operation list \<Rightarrow> spec_animator \<Rightarrow> spec_animator" where
  "spec_run [] a = a"
| "spec_run (op # rest) a = spec_run rest (spec_step op a)"

text \<open>
  How the fields of the class stand for a state of that machine: \<open>startTime\<close> is zero
  exactly in Stopped, \<open>isPaused\<close> is set exactly in Paused, and the flags agree.
\<close>

definition coupled :: "animator \<Rightarrow> spec_animator \<Rightarrow> bool" where
  "coupled s a =
     (0 \<le> startTime s
      \<and> (startTime s = 0) = (phase a = Stopped)
      \<and> isPaused s = (phase a = Paused)
      \<and> isPauseRequested s = pausedExternally a
      \<and> pauseOnHidden s = spec_pauseOnHidden a
      \<and> resumeOnShown s = spec_resumeOnShown a)"

subsection \<open>The compiled build\<close>

text \<open>
  \<open>dist/index.js\<close> is the build of the same class. It differs from \<open>src/index.ts\<close> in
  the constructor, which clamps a truthy \<open>fps\<close> with \<open>Math.min(fps, MAX_FPS)\<close>, and in
  \<open>setTargetFPS\<close>, which also assigns \<open>this.ignoreTargetFPS = false\<close>.
\<close>

definition dist_new_Animator :: "AnimatorParams \<Rightarrow> animator" where
  "dist_new_Animator p =
     (new_Animator p)
       \<lparr> targetFPS := (case param_fps p of
                        Some f \<Rightarrow> if js_truthy f then js_min f MAX_FPS else MAX_FPS
                      | None \<Rightarrow> MAX_FPS) \<rparr>"

definition dist_setTargetFPS :: "jsnum \<Rightarrow> animator \<Rightarrow> animator" where
  "dist_setTargetFPS f s = (s\<lparr>targetFPS := js_min f MAX_FPS\<rparr>)\<lparr>ignoreTargetFPS := False\<rparr>"

section \<open>Rounding, evaluated and on whole numbers\<close>

lemma log2_down_eval:
  "2 \<le> a \<Longrightarrow> log2_down a = log2_down (a / 2) + 1"
  "a < 2 \<Longrightarrow> log2_down a = 0"
  by (simp_all add: log2_down.simps [of a])

lemma log2_up_eval:
  "0 < a \<Longrightarrow> a < 1 \<Longrightarrow> log2_up a = log2_up (2 * a) - 1"
  "1 \<le> a \<Longrightarrow> log2_up a = 0"
  "a \<le> 0 \<Longrightarrow> log2_up a = 0"
  by (simp_all add: log2_up.simps [of a])

lemma floor_rat_numeral: "\<lfloor>numeral a / numeral b :: rat\<rfloor> = numeral a div numeral b"
  using floor_divide_of_int_eq [of "numeral a" "numeral b", where ?'a = rat] by simp

lemmas round_double_eval =
  round_double_def exponent_def pow2_def round_half_even_def Let_def log2_down_eval log2_up_eval
  floor_rat_numeral

text \<open>
  The doubles the examples below meet: \<open>1000 / 30\<close> is \<open>33.333333333333336\<close>,
  \<open>1000 / 24\<close> is \<open>41.666666666666664\<close>, and \<open>1000\<close> divided by that double is \<open>24\<close>, where
  the exact quotient is a little more than 24.
\<close>

lemma round_double_examples:
  "round_double (1000 / 30) = Fin (4691249611844267 / 140737488355328)"
  "round_double (1000 / 24) = Fin (5864062014805333 / 140737488355328)"
  "round_double (1000 / (5864062014805333 / 140737488355328)) = Fin 24"
  "24 < (1000::rat) / (5864062014805333 / 140737488355328)"
  "round_double (1 / 10) = Fin (3602879701896397 / 36028797018963968)"
  by (simp_all add: round_double_eval)

lemma log2_down_bounds:
  "1 \<le> a \<Longrightarrow> 0 \<le> log2_down a \<and> 2 ^ nat (log2_down a) \<le> a \<and> a < 2 ^ nat (log2_down a + 1)"
proof (induction a rule: log2_down.induct)
  case (1 a)
  show ?case
  proof (cases "2 \<le> a")
    case True
    then have half: "1 \<le> a / 2" by simp
    from "1.IH" [OF True half]
    have ih: "0 \<le> log2_down (a / 2)" "2 ^ nat (log2_down (a / 2)) \<le> a / 2"
      "a / 2 < 2 ^ nat (log2_down (a / 2) + 1)" by simp_all
    have e: "log2_down a = log2_down (a / 2) + 1" using True by (rule log2_down_eval)
    from ih(1) have n1: "nat (log2_down (a / 2) + 1) = Suc (nat (log2_down (a / 2)))" by simp
    from ih(1) have n2: "nat (log2_down (a / 2) + 1 + 1) = Suc (Suc (nat (log2_down (a / 2))))"
      by simp
    from ih show ?thesis unfolding e n1 n2 by (simp add: n1)
  next
    case False
    then have "log2_down a = 0" by (simp add: log2_down_eval)
    with False "1.prems" show ?thesis by simp
  qed
qed

lemma round_half_even_int [simp]: "round_half_even (of_int k) = k"
  by (simp add: round_half_even_def)

lemma round_double_nat_exact:
  assumes "1 \<le> k" and "k \<le> 2 ^ 53"
  shows "of_int (round_half_even (of_int k / pow2 (max (exponent (of_int k)) (- 1022) - 52)))
           * pow2 (max (exponent (of_int k)) (- 1022) - 52) = (of_int k :: rat)"
proof -
  define a :: rat where "a = of_int k"
  define e where "e = log2_down a"
  from assms(1) have a1: "1 \<le> a" by (simp add: a_def)
  then have ex: "exponent a = e" by (simp add: exponent_def e_def)
  from log2_down_bounds [OF a1] have e0: "0 \<le> e" and lo: "2 ^ nat e \<le> a"
    by (simp_all add: e_def)
  from assms(2) have hi: "a \<le> 2 ^ 53"
    unfolding a_def by (metis of_int_le_iff of_int_numeral of_int_power)
  have e53: "e \<le> 53"
  proof (rule ccontr)
    assume "\<not> e \<le> 53"
    then have "54 \<le> nat e" by simp
    then have "(2::rat) ^ 54 \<le> 2 ^ nat e" by (intro power_increasing) simp_all
    also note lo
    also note hi
    finally show False by simp
  qed
  from e0 have mx: "max e (- 1022) = e" by simp
  have "of_int (round_half_even (a / pow2 (e - 52))) * pow2 (e - 52) = a"
  proof (cases "e \<le> 52")
    case True
    then have q: "pow2 (e - 52) = 1 / 2 ^ nat (52 - e)"
      by (cases "e = 52") (simp_all add: pow2_def)
    have "a / pow2 (e - 52) = of_int (k * 2 ^ nat (52 - e))"
      by (simp add: q a_def)
    then have "round_half_even (a / pow2 (e - 52)) = k * 2 ^ nat (52 - e)"
      by (simp only: round_half_even_int)
    then show ?thesis by (simp add: q a_def)
  next
    case False
    with e53 have e: "e = 53" by simp
    with lo hi have k: "a = 2 ^ 53" by simp
    have "a / pow2 (e - 52) = of_int (2 ^ 52)"
      by (simp add: e k pow2_def)
    then have "round_half_even (a / pow2 (e - 52)) = 2 ^ 52"
      by (simp only: round_half_even_int)
    then show ?thesis by (simp add: e k pow2_def)
  qed
  then show ?thesis by (simp add: ex mx a_def [symmetric])
qed

text \<open>A whole number up to \<open>2 ^ 53\<close> in size is a double.\<close>

lemma round_double_int: "\<bar>m\<bar> \<le> 2 ^ 53 \<Longrightarrow> round_double (of_int m) = Fin (of_int m)"
proof (cases "m = 0")
  case True
  then show ?thesis by (simp add: round_double_def)
next
  case False
  assume b: "\<bar>m\<bar> \<le> 2 ^ 53"
  from False have k1: "1 \<le> \<bar>m\<bar>" by simp
  have abs: "\<bar>of_int m :: rat\<bar> = of_int \<bar>m\<bar>" by simp
  have r: "of_int (round_half_even (of_int \<bar>m\<bar> / pow2 (max (exponent (of_int \<bar>m\<bar>)) (- 1022) - 52)))
           * pow2 (max (exponent (of_int \<bar>m\<bar>)) (- 1022) - 52) = (of_int \<bar>m\<bar> :: rat)"
    using k1 b by (rule round_double_nat_exact)
  have small: "\<not> (2::rat) ^ 1024 \<le> of_int \<bar>m\<bar>"
  proof -
    from b have "(of_int \<bar>m\<bar> :: rat) \<le> 2 ^ 53"
      by (metis of_int_le_iff of_int_numeral of_int_power)
    moreover have "(2::rat) ^ 53 < 2 ^ 1024" by (intro power_strict_increasing) simp_all
    ultimately show ?thesis by linarith
  qed
  from False r small show ?thesis
    unfolding round_double_def Let_def abs by (simp only: if_False) (auto simp add: abs_if)
qed

text \<open>The difference of two whole clock readings is exact.\<close>

lemma js_sub_int:
  "\<bar>a - b\<bar> \<le> 2 ^ 53 \<Longrightarrow> js_sub (Fin (of_int a)) (Fin (of_int b)) = Fin (of_int (a - b))"
  using round_double_int [of "a - b"] by simp

lemma js_sub_numeral:
  "\<bar>numeral a - numeral b :: int\<bar> \<le> 2 ^ 53
   \<Longrightarrow> js_sub (Fin (numeral a)) (Fin (numeral b)) = Fin (of_int (numeral a - numeral b))"
  using js_sub_int [of "numeral a" "numeral b"] by simp

lemma js_sub_same: "js_sub (Fin a) (Fin a) = Fin 0"
  by (simp add: round_double_def)

lemma js_div_examples:
  "js_div (Fin 1000) (Fin 30) = Fin (4691249611844267 / 140737488355328)"
  "js_div (Fin 1000) (Fin 25) = Fin 40"
  "js_div (Fin 1000) (Fin 50) = Fin 20"
  "js_div (Fin 1000) (Fin 24) = Fin (5864062014805333 / 140737488355328)"
  "js_div (Fin 1000) (Fin (5864062014805333 / 140737488355328)) = Fin 24"
  "js_div (Fin 1000) (Fin 120) = Fin (4691249611844267 / 562949953421312)"
  "js_div (Fin 1000) (Fin 60) = Fin (4691249611844267 / 281474976710656)"
  "js_div (Fin 1000) (Fin 0) = PInf"
  by (simp_all add: round_double_eval)

section \<open>Fields that the operations leave alone\<close>

lemma animate_fields [simp]:
  "targetFPS (animate now s) = targetFPS s"
  "pauseOnHidden (animate now s) = pauseOnHidden s"
  "resumeOnShown (animate now s) = resumeOnShown s"
  "ignoreTargetFPS (animate now s) = ignoreTargetFPS s"
  "startTime (animate now s) = startTime s"
  "isPaused (animate now s) = isPaused s"
  "isPauseRequested (animate now s) = isPauseRequested s"
  "animateEvents (animate now s) = animateEvents s"
  "startEvents (animate now s) = startEvents s"
  "pauseEvents (animate now s) = pauseEvents s"
  "resumeEvents (animate now s) = resumeEvents s"
  "stopEvents (animate now s) = stopEvents s"
  by (simp_all add: animate_def requestAnimationFrame_def Let_def)

lemma set_events_fields [simp]:
  "isPauseRequested (set_events r xs s) = isPauseRequested s"
  "isPaused (set_events r xs s) = isPaused s"
  "startTime (set_events r xs s) = startTime s"
  "pauseOnHidden (set_events r xs s) = pauseOnHidden s"
  "resumeOnShown (set_events r xs s) = resumeOnShown s"
  "calls (set_events r xs s) = calls s"
  "requested (set_events r xs s) = requested s"
  by (cases r; simp)+

lemma events_set_events [simp]:
  "events r' (set_events r xs s) = (if r' = r then xs else events r' s)"
  by (cases r; cases r'; simp)

lemma set_events_same [simp]: "set_events r (events r s) s = s"
  by (cases r; simp)

lemma set_events_twice [simp]: "set_events r xs (set_events r ys s) = set_events r xs s"
  by (cases r; simp)

lemma events_animate [simp]: "events r (animate now s) = events r s"
  by (cases r; simp)

section \<open>The throttle\<close>

text \<open>
  C1. On a run of \<open>animate\<close> on a Running animator (target rate greater than zero, not
  paused, started) the frame subscribers fire if and only if \<open>ignoreTargetFPS\<close> is set or
  \<open>delta = now - previousAnimateTime\<close> is at least \<open>1000 / targetFPS\<close>, difference and
  quotient being the rounded ones of the code. When they fire, \<open>performingFPS\<close> becomes
  \<open>1000 / delta\<close>, every frame subscriber is invoked once, in registration order, with
  \<open>delta\<close>, and \<open>previousAnimateTime\<close> becomes \<open>now\<close>; when they do not, nothing is invoked
  and \<open>previousAnimateTime\<close> and \<open>performingFPS\<close> stay. Either way the next frame is
  requested. A frame of the frame clock is such a run, using up one requested frame; and
  the order of \<open>animateEvents\<close> is the order of registration, since \<open>add\<close> appends.
\<close>

theorem animate_while_running:
  assumes "js_gt (targetFPS s) (Fin 0)" and "\<not> isPaused s" and "0 < startTime s"
  shows "(let delta = js_sub (Fin now) (Fin (previousAnimateTime s));
              fire = (ignoreTargetFPS s \<or> js_ge delta (js_div (Fin 1000) (targetFPS s)))
          in (fire \<longrightarrow> performingFPS (animate now s) = js_div (Fin 1000) delta
                     \<and> calls (animate now s)
                         = calls s @ map (\<lambda>event. AnimateCall event delta) (animateEvents s)
                     \<and> previousAnimateTime (animate now s) = now)
           \<and> (\<not> fire \<longrightarrow> performingFPS (animate now s) = performingFPS s
                     \<and> calls (animate now s) = calls s
                     \<and> previousAnimateTime (animate now s) = previousAnimateTime s)
           \<and> (animateEvents s \<noteq> [] \<longrightarrow> (calls (animate now s) \<noteq> calls s) = fire)
           \<and> requested (animate now s) = Suc (requested s)
           \<and> (0 < requested s \<longrightarrow> frame now s = (animate now s)\<lparr>requested := requested s\<rparr>)
           \<and> animateEvents (fst (add e s)) = animateEvents s @ [e])"
  using assms
  by (simp add: animate_def frame_def add_def addEvent_def requestAnimationFrame_def Let_def
      del: js_sub.simps js_div.simps)

text \<open>
  Two started animators for the examples: one at 25 frames a second, one at the double
  nearest to \<open>1000 / 24\<close>, which is \<open>41.666666666666664\<close>.
\<close>

lemma startAnimation_25fps:
  "startAnimation 1000 7 (Some (no_params\<lparr>param_fps := Some (Fin 25)\<rparr>))
     = \<lparr> targetFPS = Fin 25, pauseOnHidden = True, resumeOnShown = True,
         ignoreTargetFPS = False, performingFPS = Fin 0, startTime = 1000,
         previousAnimateTime = 1000, isPaused = False, isPauseRequested = False,
         animateEvents = [7], startEvents = [], pauseEvents = [],
         resumeEvents = [], stopEvents = [], requested = 1, calls = [] \<rparr>"
  by (simp add: startAnimation_def new_Animator_def no_params_def add_def addEvent_def start_def
      MAX_FPS_def animate_def requestAnimationFrame_def Let_def js_sub_same js_div_examples
      del: js_sub.simps js_div.simps)

lemma startAnimation_41fps:
  "startAnimation 1000 7
       (Some (no_params\<lparr>param_fps := Some (Fin (5864062014805333 / 140737488355328))\<rparr>))
     = \<lparr> targetFPS = Fin (5864062014805333 / 140737488355328),
         pauseOnHidden = True, resumeOnShown = True,
         ignoreTargetFPS = False, performingFPS = Fin 0, startTime = 1000,
         previousAnimateTime = 1000, isPaused = False, isPauseRequested = False,
         animateEvents = [7], startEvents = [], pauseEvents = [],
         resumeEvents = [], stopEvents = [], requested = 1, calls = [] \<rparr>"
  by (simp add: startAnimation_def new_Animator_def no_params_def add_def addEvent_def start_def
      MAX_FPS_def animate_def requestAnimationFrame_def Let_def js_sub_same js_div_examples
      del: js_sub.simps js_div.simps)

theorem animate_while_running_witness:
  "js_gt (targetFPS (startAnimation 1000 7 (Some (no_params\<lparr>param_fps := Some (Fin 25)\<rparr>)))) (Fin 0)
   \<and> \<not> isPaused (startAnimation 1000 7 (Some (no_params\<lparr>param_fps := Some (Fin 25)\<rparr>)))
   \<and> 0 < startTime (startAnimation 1000 7 (Some (no_params\<lparr>param_fps := Some (Fin 25)\<rparr>)))
   \<and> calls (animate 1050 (startAnimation 1000 7 (Some (no_params\<lparr>param_fps := Some (Fin 25)\<rparr>))))
       = [AnimateCall 7 (Fin 50)]
   \<and> performingFPS (animate 1050 (startAnimation 1000 7 (Some (no_params\<lparr>param_fps := Some (Fin 25)\<rparr>))))
       = Fin 20
   \<and> previousAnimateTime (animate 1050 (startAnimation 1000 7 (Some (no_params\<lparr>param_fps := Some (Fin 25)\<rparr>))))
       = 1050
   \<and> calls (animate 1039 (startAnimation 1000 7 (Some (no_params\<lparr>param_fps := Some (Fin 25)\<rparr>))))
       = []
   \<and> previousAnimateTime (animate 1039 (startAnimation 1000 7 (Some (no_params\<lparr>param_fps := Some (Fin 25)\<rparr>))))
       = 1000
   \<and> requested (animate 1039 (startAnimation 1000 7 (Some (no_params\<lparr>param_fps := Some (Fin 25)\<rparr>))))
       = 2
   \<and> calls (animate 1024 (startAnimation 1000 7
         (Some (no_params\<lparr>param_fps := Some (Fin (5864062014805333 / 140737488355328))\<rparr>))))
       = [AnimateCall 7 (Fin 24)]"
  using
    animate_while_running [of "startAnimation 1000 7 (Some (no_params\<lparr>param_fps := Some (Fin 25)\<rparr>))" 1050]
    animate_while_running [of "startAnimation 1000 7 (Some (no_params\<lparr>param_fps := Some (Fin 25)\<rparr>))" 1039]
    animate_while_running [of "startAnimation 1000 7
         (Some (no_params\<lparr>param_fps := Some (Fin (5864062014805333 / 140737488355328))\<rparr>))" 1024]
  unfolding startAnimation_25fps startAnimation_41fps
  by (simp add: Let_def js_sub_numeral js_div_examples del: js_sub.simps js_div.simps)

section \<open>The cap on the target rate\<close>

lemma setTargetFPS_capped: "\<not> js_gt (targetFPS (setTargetFPS f s)) MAX_FPS"
  by (cases f) (simp_all add: setTargetFPS_def MAX_FPS_def)

lemma setTargetFPS_at_most:
  "f \<noteq> NaN \<Longrightarrow> js_ge MAX_FPS (targetFPS (setTargetFPS f s))"
  by (cases f) (simp_all add: setTargetFPS_def MAX_FPS_def)

lemma dist_new_Animator_capped: "\<not> js_gt (targetFPS (dist_new_Animator p)) MAX_FPS"
  by (cases "param_fps p"; cases "the (param_fps p)")
     (simp_all add: dist_new_Animator_def new_Animator_def MAX_FPS_def)

text \<open>
  C2. The target rate is to stay at or below 60 after construction with a positive \<open>fps\<close>
  and after \<open>setTargetFPS\<close>. \<open>setTargetFPS\<close> caps (\<open>setTargetFPS_capped\<close>), and so does the
  constructor of the compiled build (\<open>dist_new_Animator_capped\<close>); the constructor of
  \<open>src/index.ts\<close> stores \<open>fps\<close> as it is: \<open>new Animator({ fps: 120 })\<close> has the target
  rate 120, and a frame 9 ms after the start already fires, sooner than the 1000/60 ms
  that the cap stands for.
\<close>

theorem constructor_exceeds_MAX_FPS:
  "targetFPS (new_Animator (no_params\<lparr>param_fps := Some (Fin 120)\<rparr>)) = Fin 120
   \<and> js_gt (targetFPS (new_Animator (no_params\<lparr>param_fps := Some (Fin 120)\<rparr>))) MAX_FPS
   \<and> calls (frame 1009 (startAnimation 1000 7 (Some (no_params\<lparr>param_fps := Some (Fin 120)\<rparr>))))
       = [AnimateCall 7 (Fin 9)]
   \<and> \<not> js_ge (Fin 9) (js_div (Fin 1000) MAX_FPS)
   \<and> targetFPS (dist_new_Animator (no_params\<lparr>param_fps := Some (Fin 120)\<rparr>)) = Fin 60"
  by (simp add: new_Animator_def dist_new_Animator_def no_params_def MAX_FPS_def startAnimation_def
      add_def addEvent_def start_def frame_def animate_def requestAnimationFrame_def Let_def
      js_sub_numeral js_sub_same js_div_examples del: js_sub.simps js_div.simps)

section \<open>A target rate that is not positive\<close>

text \<open>
  C3, as the claim has it: at a target rate of zero a frame of a started, un-paused animator
  would request the next frame. It does not: after \<open>setTargetFPS(0)\<close> on a started
  animator the one pending frame runs, invokes nothing and leaves no frame requested.
\<close>

theorem zero_rate_tick_requests_nothing:
  "0 < startTime (setTargetFPS (Fin 0) (startAnimation 1000 7 (Some (no_params\<lparr>param_fps := Some (Fin 30)\<rparr>))))
   \<and> \<not> isPaused (setTargetFPS (Fin 0) (startAnimation 1000 7 (Some (no_params\<lparr>param_fps := Some (Fin 30)\<rparr>))))
   \<and> targetFPS (setTargetFPS (Fin 0) (startAnimation 1000 7 (Some (no_params\<lparr>param_fps := Some (Fin 30)\<rparr>))))
       = Fin 0
   \<and> requested (setTargetFPS (Fin 0) (startAnimation 1000 7 (Some (no_params\<lparr>param_fps := Some (Fin 30)\<rparr>))))
       = 1
   \<and> requested (frame 1100 (setTargetFPS (Fin 0) (startAnimation 1000 7 (Some (no_params\<lparr>param_fps := Some (Fin 30)\<rparr>)))))
       = 0
   \<and> calls (frame 1100 (setTargetFPS (Fin 0) (startAnimation 1000 7 (Some (no_params\<lparr>param_fps := Some (Fin 30)\<rparr>)))))
       = []"
  by (simp add: setTargetFPS_def startAnimation_def new_Animator_def no_params_def add_def addEvent_def
      start_def frame_def MAX_FPS_def animate_def requestAnimationFrame_def Let_def
      js_sub_numeral js_sub_same js_div_examples del: js_sub.simps js_div.simps)

text \<open>
  C3, amended. When the target rate is not greater than zero (zero, negative or \<open>NaN\<close>),
  \<open>animate\<close> does nothing at all: a frame invokes no subscriber, requests no further
  frame (the pending one is used up, so the chain of frames ends), and leaves
  \<open>startTime\<close> and \<open>isPaused\<close> as they are.
\<close>

theorem nonpositive_rate_ends_ticking:
  assumes "\<not> js_gt (targetFPS s) (Fin 0)"
  shows "animate now s = s
         \<and> calls (frame now s) = calls s
         \<and> requested (frame now s) = requested s - 1
         \<and> startTime (frame now s) = startTime s
         \<and> isPaused (frame now s) = isPaused s"
  using assms by (simp add: animate_def frame_def)

theorem nonpositive_rate_ends_ticking_witness:
  "\<not> js_gt (targetFPS (setTargetFPS (Fin 0) (start 1000 (new_Animator no_params)))) (Fin 0)
   \<and> requested (setTargetFPS (Fin 0) (start 1000 (new_Animator no_params))) = 1
   \<and> requested (frame 1100 (setTargetFPS (Fin 0) (start 1000 (new_Animator no_params)))) = 0
   \<and> 0 < startTime (frame 1100 (setTargetFPS (Fin 0) (start 1000 (new_Animator no_params))))"
  using nonpositive_rate_ends_ticking [of "setTargetFPS (Fin 0) (start 1000 (new_Animator no_params))" 1100]
  by (simp add: setTargetFPS_def new_Animator_def no_params_def start_def MAX_FPS_def animate_def
      requestAnimationFrame_def Let_def js_sub_same js_div_examples del: js_sub.simps js_div.simps)

section \<open>Setting the target rate\<close>

lemma setTargetFPS_ignoreTargetFPS: "ignoreTargetFPS (setTargetFPS f s) = ignoreTargetFPS s"
  by (simp add: setTargetFPS_def)

lemma dist_setTargetFPS_clears:
  "\<not> ignoreTargetFPS (dist_setTargetFPS f s)
   \<and> targetFPS (dist_setTargetFPS f s) = js_min f MAX_FPS"
  by (simp add: dist_setTargetFPS_def)

text \<open>
  C4. \<open>setTargetFPS\<close> is to store the clamped rate and clear \<open>ignoreTargetFPS\<close>, so that
  the elapsed-time check governs firing again. In \<open>src/index.ts\<close> it stores the clamped
  rate and leaves the flag (\<open>setTargetFPS_ignoreTargetFPS\<close>); the compiled build clears it
  (\<open>dist_setTargetFPS_clears\<close>). After \<open>new Animator()\<close> and \<open>setTargetFPS(30)\<close> the flag
  is still set, and a frame 1 ms after the start fires although 1 is less than 1000/30.
\<close>

theorem setTargetFPS_leaves_flag_set:
  "targetFPS (setTargetFPS (Fin 30) (fst (add 7 (new_Animator no_params)))) = Fin 30
   \<and> ignoreTargetFPS (setTargetFPS (Fin 30) (fst (add 7 (new_Animator no_params))))
   \<and> calls (frame 1001 (start 1000 (setTargetFPS (Fin 30) (fst (add 7 (new_Animator no_params))))))
       = [AnimateCall 7 (Fin 0), AnimateCall 7 (Fin 1)]
   \<and> \<not> js_ge (Fin 1) (js_div (Fin 1000) (Fin 30))
   \<and> \<not> ignoreTargetFPS (dist_setTargetFPS (Fin 30) (fst (add 7 (new_Animator no_params))))"
  by (simp add: setTargetFPS_def dist_setTargetFPS_def new_Animator_def no_params_def add_def
      addEvent_def start_def frame_def MAX_FPS_def animate_def requestAnimationFrame_def Let_def
      js_sub_numeral js_sub_same js_div_examples del: js_sub.simps js_div.simps)

section \<open>Resuming\<close>

lemma perform_keeps_pause_request:
  "isPauseRequested s \<Longrightarrow> op \<noteq> WindowShow \<Longrightarrow> isPauseRequested (perform t op s)"
  by (cases op)
     (simp_all add: start_def pause_def resume_def stop_def setTargetFPS_def setPauseOnHidden_def
        setResumeOnShown_def addEvent_def removeEvent_def onHidden_def frame_def Let_def)

text \<open>
  C5, as the claim has it: whenever \<open>resume\<close> makes the transition it would resume
  ticking. At a target rate of zero it does not: on a started animator whose rate was set
  to zero, whose pending frame has run and which was then paused, \<open>resume\<close> clears
  \<open>isPaused\<close> and invokes the resume subscriber, and no frame is requested.
\<close>

theorem resume_at_zero_rate_requests_nothing:
  "isPaused (pause (frame 1016 (setTargetFPS (Fin 0) (start 1000 (fst (onResume 5 (new_Animator no_params)))))))
   \<and> \<not> isPauseRequested (pause (frame 1016 (setTargetFPS (Fin 0) (start 1000 (fst (onResume 5 (new_Animator no_params)))))))
   \<and> requested (pause (frame 1016 (setTargetFPS (Fin 0) (start 1000 (fst (onResume 5 (new_Animator no_params)))))))
       = 0
   \<and> \<not> isPaused (resume 3000
         (pause (frame 1016 (setTargetFPS (Fin 0) (start 1000 (fst (onResume 5 (new_Animator no_params))))))))
   \<and> calls (resume 3000
         (pause (frame 1016 (setTargetFPS (Fin 0) (start 1000 (fst (onResume 5 (new_Animator no_params))))))))
       = [ResumeCall 5]
   \<and> requested (resume 3000
         (pause (frame 1016 (setTargetFPS (Fin 0) (start 1000 (fst (onResume 5 (new_Animator no_params))))))))
       = 0"
  by (simp add: new_Animator_def no_params_def onResume_def addEvent_def start_def pause_def
      resume_def setTargetFPS_def frame_def MAX_FPS_def animate_def requestAnimationFrame_def
      Let_def js_sub_same js_div_examples del: js_sub.simps js_div.simps)

text \<open>
  C5, amended. \<open>resume\<close> changes nothing and invokes nothing unless the animator is
  paused, and nothing either while \<open>isPauseRequested\<close> is set. When it does make the
  transition, it clears \<open>isPaused\<close>, invokes the resume subscribers, sets
  \<open>previousAnimateTime\<close> to the current time and runs \<open>animate\<close>, which requests the next
  frame when the target rate is greater than zero (on a started animator) and requests
  nothing when it is not. No operation but the window's show event takes
  \<open>isPauseRequested\<close> back, and that one does when \<open>resumeOnShown\<close> is set.
\<close>

theorem resume_guarded:
  "(\<not> isPaused s \<or> isPauseRequested s \<longrightarrow> resume now s = s)
   \<and> (isPaused s \<and> \<not> isPauseRequested s \<longrightarrow>
        resume now s
          = animate now (s\<lparr> isPaused := False,
                            calls := calls s @ map ResumeCall (resumeEvents s),
                            previousAnimateTime := now \<rparr>)
        \<and> \<not> isPaused (resume now s)
        \<and> previousAnimateTime (resume now s) = now
        \<and> take (length (calls s) + length (resumeEvents s)) (calls (resume now s))
            = calls s @ map ResumeCall (resumeEvents s)
        \<and> (js_gt (targetFPS s) (Fin 0) \<and> 0 < startTime s \<longrightarrow>
             requested (resume now s) = Suc (requested s))
        \<and> (\<not> js_gt (targetFPS s) (Fin 0) \<longrightarrow>
             requested (resume now s) = requested s
             \<and> calls (resume now s) = calls s @ map ResumeCall (resumeEvents s)))
   \<and> (\<forall>t op. isPauseRequested s \<and> op \<noteq> WindowShow \<longrightarrow> isPauseRequested (perform t op s))
   \<and> (resumeOnShown s \<longrightarrow> \<not> isPauseRequested (onShow now s))"
  by (auto simp add: perform_keeps_pause_request resume_def onShow_def animate_def
        requestAnimationFrame_def Let_def simp del: js_sub.simps js_div.simps)

lemma paused_by_caller:
  "pause (start 1000 (fst (onResume 5 (new_Animator (no_params\<lparr>param_fps := Some (Fin 30)\<rparr>)))))
     = \<lparr> targetFPS = Fin 30, pauseOnHidden = True, resumeOnShown = True,
         ignoreTargetFPS = False, performingFPS = Fin 0, startTime = 1000,
         previousAnimateTime = 1000, isPaused = True, isPauseRequested = False,
         animateEvents = [], startEvents = [], pauseEvents = [],
         resumeEvents = [5], stopEvents = [], requested = 1, calls = [] \<rparr>"
  by (simp add: new_Animator_def no_params_def onResume_def addEvent_def start_def pause_def
      MAX_FPS_def animate_def requestAnimationFrame_def Let_def js_sub_same js_div_examples
      del: js_sub.simps js_div.simps)

lemma paused_by_window:
  "onHidden (start 1000 (fst (onResume 5 (new_Animator (no_params\<lparr>param_fps := Some (Fin 30)\<rparr>)))))
     = \<lparr> targetFPS = Fin 30, pauseOnHidden = True, resumeOnShown = True,
         ignoreTargetFPS = False, performingFPS = Fin 0, startTime = 1000,
         previousAnimateTime = 1000, isPaused = True, isPauseRequested = True,
         animateEvents = [], startEvents = [], pauseEvents = [],
         resumeEvents = [5], stopEvents = [], requested = 1, calls = [] \<rparr>"
  by (simp add: new_Animator_def no_params_def onResume_def addEvent_def start_def pause_def
      onHidden_def MAX_FPS_def animate_def requestAnimationFrame_def Let_def js_sub_same
      js_div_examples del: js_sub.simps js_div.simps)

theorem resume_guarded_witness:
  "isPaused (pause (start 1000 (fst (onResume 5 (new_Animator (no_params\<lparr>param_fps := Some (Fin 30)\<rparr>))))))
   \<and> \<not> isPauseRequested (pause (start 1000 (fst (onResume 5 (new_Animator (no_params\<lparr>param_fps := Some (Fin 30)\<rparr>))))))
   \<and> calls (resume 3000 (pause (start 1000 (fst (onResume 5 (new_Animator (no_params\<lparr>param_fps := Some (Fin 30)\<rparr>)))))))
       = [ResumeCall 5]
   \<and> previousAnimateTime (resume 3000 (pause (start 1000 (fst (onResume 5 (new_Animator (no_params\<lparr>param_fps := Some (Fin 30)\<rparr>)))))))
       = 3000
   \<and> requested (resume 3000 (pause (start 1000 (fst (onResume 5 (new_Animator (no_params\<lparr>param_fps := Some (Fin 30)\<rparr>)))))))
       = 2
   \<and> isPauseRequested (onHidden (start 1000 (fst (onResume 5 (new_Animator (no_params\<lparr>param_fps := Some (Fin 30)\<rparr>))))))
   \<and> resume 3000 (onHidden (start 1000 (fst (onResume 5 (new_Animator (no_params\<lparr>param_fps := Some (Fin 30)\<rparr>))))))
       = onHidden (start 1000 (fst (onResume 5 (new_Animator (no_params\<lparr>param_fps := Some (Fin 30)\<rparr>)))))
   \<and> isPauseRequested (perform 3000 Resume
         (onHidden (start 1000 (fst (onResume 5 (new_Animator (no_params\<lparr>param_fps := Some (Fin 30)\<rparr>)))))))
   \<and> \<not> isPauseRequested (onShow 4000
         (onHidden (start 1000 (fst (onResume 5 (new_Animator (no_params\<lparr>param_fps := Some (Fin 30)\<rparr>)))))))"
  using
    resume_guarded [of "pause (start 1000 (fst (onResume 5 (new_Animator (no_params\<lparr>param_fps := Some (Fin 30)\<rparr>)))))" 3000]
    resume_guarded [of "onHidden (start 1000 (fst (onResume 5 (new_Animator (no_params\<lparr>param_fps := Some (Fin 30)\<rparr>)))))" 4000]
    resume_guarded [of "onHidden (start 1000 (fst (onResume 5 (new_Animator (no_params\<lparr>param_fps := Some (Fin 30)\<rparr>)))))" 3000]
  unfolding paused_by_caller paused_by_window
  by (simp add: resume_def onShow_def animate_def requestAnimationFrame_def Let_def
      js_sub_same js_div_examples del: js_sub.simps js_div.simps)

section \<open>The lifecycle invariants\<close>

lemma coupled_init: "coupled (new_Animator p) (spec_init p)"
  by (simp add: coupled_def new_Animator_def spec_init_def)

lemma coupled_step:
  assumes "coupled s a" and "0 < t"
  shows "coupled (perform t op s) (spec_step op a)"
proof (cases op)
  case Start
  with assms show ?thesis
    by (cases "phase a") (auto simp add: coupled_def start_def spec_start_def Let_def)
next
  case Pause
  with assms show ?thesis
    by (cases "phase a") (auto simp add: coupled_def pause_def spec_pause_def Let_def)
next
  case Resume
  with assms show ?thesis
    by (cases "phase a") (auto simp add: coupled_def resume_def spec_resume_def Let_def)
next
  case Stop
  with assms show ?thesis
    by (cases "phase a") (auto simp add: coupled_def stop_def spec_stop_def Let_def)
next
  case WindowHidden
  with assms show ?thesis
    by (cases "phase a") (auto simp add: coupled_def onHidden_def pause_def spec_pause_def Let_def)
next
  case WindowShow
  with assms show ?thesis
    by (cases "phase a") (auto simp add: coupled_def onShow_def resume_def spec_resume_def Let_def)
next
  case Frame
  with assms show ?thesis
    by (simp add: coupled_def frame_def)
qed (use assms in \<open>simp_all add: coupled_def setTargetFPS_def setPauseOnHidden_def
       setResumeOnShown_def addEvent_def removeEvent_def Let_def\<close>)

lemma coupled_run:
  "coupled s a \<Longrightarrow> \<forall>x\<in>set tr. 0 < fst x \<Longrightarrow> coupled (run tr s) (spec_run (map snd tr) a)"
proof (induction tr arbitrary: s a)
  case Nil
  then show ?case by simp
next
  case (Cons x tr)
  obtain t op where x: "x = (t, op)" by (cases x)
  from Cons.prems x have "coupled (perform t op s) (spec_step op a)"
    by (simp add: coupled_step)
  with Cons.IH [of "perform t op s" "spec_step op a"] Cons.prems x show ?case
    by simp
qed

text \<open>
  C6. After any sequence of public operations, window events and frames on a new animator,
  at positive clock readings: \<open>startTime\<close> is zero exactly when the specification's state
  machine, run on the same operations, is in Stopped; \<open>isPaused\<close> is set only while
  \<open>startTime\<close> is not zero; and while \<open>startTime\<close> is zero \<open>animate\<close> changes nothing, so a
  frame invokes no subscriber and requests no frame.
\<close>

theorem lifecycle_invariants:
  assumes "\<forall>x\<in>set tr. 0 < fst x"
  shows "(startTime (run tr (new_Animator p)) = 0)
           = (phase (spec_run (map snd tr) (spec_init p)) = Stopped)
         \<and> (isPaused (run tr (new_Animator p)) \<longrightarrow> startTime (run tr (new_Animator p)) \<noteq> 0)
         \<and> (startTime (run tr (new_Animator p)) = 0 \<longrightarrow>
              (\<forall>now. animate now (run tr (new_Animator p)) = run tr (new_Animator p)
                    \<and> calls (frame now (run tr (new_Animator p))) = calls (run tr (new_Animator p))
                    \<and> requested (frame now (run tr (new_Animator p)))
                        \<le> requested (run tr (new_Animator p))))"
proof -
  have c: "coupled (run tr (new_Animator p)) (spec_run (map snd tr) (spec_init p))"
    using coupled_init assms by (rule coupled_run)
  have "\<And>s now. startTime s = 0 \<Longrightarrow> animate now s = s"
    by (simp add: animate_def)
  moreover have "\<And>s now. startTime s = 0 \<Longrightarrow> calls (frame now s) = calls s"
    by (simp add: animate_def frame_def)
  moreover have "\<And>s now. startTime s = 0 \<Longrightarrow> requested (frame now s) \<le> requested s"
    by (simp add: animate_def frame_def)
  ultimately show ?thesis
    using c by (auto simp add: coupled_def)
qed

theorem lifecycle_invariants_witness:
  "list_all (\<lambda>x. 0 < fst x)
     [(1000::time, Start), (1016, Frame), (1020, WindowHidden), (1030, Resume), (1040, Stop), (1050, Frame)]
   \<and> startTime (run [(1000, Start), (1016, Frame), (1020, WindowHidden), (1030, Resume),
                     (1040, Stop), (1050, Frame)] (new_Animator no_params)) = 0
   \<and> phase (spec_run (map snd [(1000::time, Start), (1016, Frame), (1020, WindowHidden),
                               (1030, Resume), (1040, Stop), (1050, Frame)]) (spec_init no_params))
       = Stopped
   \<and> isPaused (run [(1000, Start), (1016, Frame), (1020, WindowHidden)] (new_Animator no_params))
   \<and> startTime (run [(1000, Start), (1016, Frame), (1020, WindowHidden)] (new_Animator no_params))
       = 1000"
  using
    lifecycle_invariants [of "[(1000, Start), (1016, Frame), (1020, WindowHidden), (1030, Resume),
                               (1040, Stop), (1050, Frame)]" no_params]
    lifecycle_invariants [of "[(1000, Start), (1016, Frame), (1020, WindowHidden)]" no_params]
  by (simp add: new_Animator_def no_params_def spec_init_def start_def pause_def resume_def stop_def
      onHidden_def frame_def spec_start_def spec_pause_def spec_resume_def spec_stop_def
      MAX_FPS_def animate_def requestAnimationFrame_def Let_def
      del: js_sub.simps js_div.simps)

section \<open>The first frame after \<open>startAnimation\<close>\<close>

lemma rate30_threshold:
  "((4691249611844267::rat) / 140737488355328 \<le> of_int d) = (34 \<le> d)"
proof -
  have "((4691249611844267::rat) / 140737488355328 \<le> of_int d)
          = ((4691249611844267::rat) \<le> of_int (140737488355328 * d))"
    by (simp add: field_simps)
  also have "\<dots> = (4691249611844267 \<le> 140737488355328 * d)"
    by (metis of_int_le_iff of_int_numeral)
  also have "\<dots> = (34 \<le> d)" by arith
  finally show ?thesis .
qed

text \<open>
  The fake clock of the test suite can read \<open>1000 + 1000 / 30\<close>, which is the double
  \<open>1033.3333333333333\<close>; its distance from 1000 is \<open>33.33333333333326\<close>, less than the
  double \<open>1000 / 30\<close>, and the frame at that reading invokes nothing.
\<close>

lemma fractional_reading_sub:
  "round_double (1000 + 4691249611844267 / 140737488355328)
     = Fin (4544648061474133 / 4398046511104)"
  "js_sub (Fin (4544648061474133 / 4398046511104)) (Fin 1000)
     = Fin (146601550370133 / 4398046511104)"
  by (simp_all add: round_double_eval)

lemma fractional_reading_example:
  "calls (frame (4544648061474133 / 4398046511104)
            (startAnimation 1000 7 (Some (no_params\<lparr>param_fps := Some (Fin 30)\<rparr>))))
     = []"
  by (simp add: startAnimation_def new_Animator_def no_params_def add_def addEvent_def
      start_def frame_def MAX_FPS_def animate_def requestAnimationFrame_def Let_def
      fractional_reading_sub js_sub_same js_div_examples del: js_sub.simps js_div.simps)

text \<open>
  C7, as the claim has it: after \<open>startAnimation(h, { fps: 30 })\<close> a frame 33 ms later
  would invoke \<open>h\<close> once. It invokes nothing: 33 is less than 1000/30.
\<close>

theorem startAnimation_30fps_after_33ms:
  "calls (frame (1000 + 33) (startAnimation 1000 7 (Some (no_params\<lparr>param_fps := Some (Fin 30)\<rparr>))))
     = []"
  by (simp add: startAnimation_def new_Animator_def no_params_def add_def addEvent_def
      start_def frame_def MAX_FPS_def animate_def requestAnimationFrame_def Let_def
      js_sub_numeral js_sub_same js_div_examples del: js_sub.simps js_div.simps)

text \<open>
  C7, amended. With the clock reading whole milliseconds, as \<open>Date.now()\<close> does (up to
  \<open>2 ^ 53\<close>, beyond every date): after \<open>startAnimation(h, { fps: 30 })\<close> at a positive
  reading, the first frame, \<open>d\<close> whole milliseconds later, invokes \<open>h\<close> exactly once, with
  the delta \<open>d\<close>, when \<open>d\<close> is at least 34, and does not invoke it when \<open>d\<close> is less: not
  after 33 ms, whose delta is less than the double \<open>1000 / 30\<close>.
\<close>

theorem startAnimation_30fps_first_frame:
  assumes "0 < t0" and "0 \<le> d" and "t0 + d \<le> 2 ^ 53"
  shows "calls (frame (of_int (t0 + d))
                  (startAnimation (of_int t0) h (Some (p\<lparr>param_fps := Some (Fin 30)\<rparr>))))
         = (if 34 \<le> d then [AnimateCall h (Fin (of_int d))] else [])"
proof -
  from assms have "\<bar>(t0 + d) - t0\<bar> \<le> 2 ^ 53" by simp
  then have "js_sub (Fin (of_int (t0 + d))) (Fin (of_int t0)) = Fin (of_int ((t0 + d) - t0))"
    by (rule js_sub_int)
  then have sub: "js_sub (Fin (of_int t0 + of_int d)) (Fin (of_int t0)) = Fin (of_int d)"
    by simp
  from assms(1) have pos: "(0::rat) < of_int t0" by simp
  show ?thesis
    using pos
    by (simp add: startAnimation_def new_Animator_def add_def addEvent_def
        start_def frame_def animate_def requestAnimationFrame_def Let_def
        sub js_sub_same js_div_examples rate30_threshold del: js_sub.simps js_div.simps)
qed

theorem startAnimation_30fps_first_frame_witness:
  "(0::int) < 1000 \<and> (0::int) \<le> 34 \<and> (1000::int) + 34 \<le> 2 ^ 53
   \<and> calls (frame 1034 (startAnimation 1000 7 (Some (no_params\<lparr>param_fps := Some (Fin 30)\<rparr>))))
       = [AnimateCall 7 (Fin 34)]"
  using startAnimation_30fps_first_frame [of 1000 34 7 no_params]
  by simp

section \<open>Calling an operation twice\<close>

text \<open>
  C8, as the claim has it: every public operation called twice in a row would have the
  effect of one call. Subscribing does not: \<open>add(h)\<close> twice registers \<open>h\<close> twice, and the
  next firing invokes it twice.
\<close>

theorem double_subscription_fires_twice:
  "calls (start 1000 (fst (add 7 (fst (add 7 (new_Animator no_params))))))
     = [AnimateCall 7 (Fin 0), AnimateCall 7 (Fin 0)]
   \<and> calls (start 1000 (fst (add 7 (new_Animator no_params)))) = [AnimateCall 7 (Fin 0)]"
  by (simp add: new_Animator_def no_params_def add_def addEvent_def
      start_def MAX_FPS_def animate_def requestAnimationFrame_def Let_def
      js_sub_same js_div_examples del: js_sub.simps js_div.simps)

text \<open>
  C8, amended. For \<open>start\<close>, \<open>pause\<close>, \<open>resume\<close>, \<open>stop\<close> and the three setters, a second
  call right after the first (with the same argument, at any clock reading) changes
  nothing: the state after two calls, the log of invocations included, is the state after
  one. For \<open>start\<close> the clock reading of the first call is taken not to be zero.
\<close>

theorem lifecycle_idempotent:
  assumes "lifecycle_or_setter op" and "t1 \<noteq> 0"
  shows "perform t2 op (perform t1 op s) = perform t1 op s"
  using assms
  by (cases op)
     (simp_all add: start_def pause_def resume_def stop_def setTargetFPS_def setPauseOnHidden_def
        setResumeOnShown_def Let_def)

theorem lifecycle_idempotent_witness:
  "lifecycle_or_setter Start
   \<and> (1000::time) \<noteq> 0
   \<and> perform 2000 Start (perform 1000 Start (fst (onStart 4 (new_Animator no_params))))
       = perform 1000 Start (fst (onStart 4 (new_Animator no_params)))
   \<and> calls (perform 2000 Start (perform 1000 Start (fst (onStart 4 (new_Animator no_params)))))
       = [StartCall 4]"
  using lifecycle_idempotent [of Start 1000 2000 "fst (onStart 4 (new_Animator no_params))"]
  by (simp add: new_Animator_def no_params_def onStart_def addEvent_def start_def MAX_FPS_def
      animate_def requestAnimationFrame_def Let_def js_sub_same js_div_examples
      del: js_sub.simps js_div.simps)

section \<open>Subscribing and unsubscribing\<close>

lemma indexOf_absent: "e \<notin> set xs \<Longrightarrow> indexOf xs e = - 1"
  by (induction xs) (auto simp add: Let_def)

lemma indexOf_present: "e \<in> set xs \<Longrightarrow> 0 \<le> indexOf xs e"
  by (induction xs) (auto simp add: Let_def)

lemma indexOf_minus1 [simp]: "(indexOf xs e = - 1) = (e \<notin> set xs)"
  using indexOf_absent [of e xs] indexOf_present [of e xs] by auto

lemma splice1_indexOf: "e \<in> set xs \<Longrightarrow> splice1 (nat (indexOf xs e)) xs = remove1 e xs"
proof (induction xs)
  case Nil
  then show ?case by simp
next
  case (Cons x xs)
  show ?case
  proof (cases "x = e")
    case True
    then show ?thesis by (simp add: splice1_def)
  next
    case False
    with Cons.prems have mem: "e \<in> set xs" by simp
    then have "0 \<le> indexOf xs e" by (rule indexOf_present)
    then have "nat (indexOf xs e + 1) = Suc (nat (indexOf xs e))" by simp
    with False mem Cons.IH show ?thesis
      by (simp add: splice1_def Let_def)
  qed
qed

lemma removeEvent_remove1:
  "removeEvent e r s
     = (if e \<in> set (events r s) then set_events r (remove1 e (events r s)) s else s)"
  by (simp add: removeEvent_def Let_def splice1_indexOf)

lemma perform_calls:
  "\<exists>new. calls (perform t op s) = calls s @ new
         \<and> (\<forall>c\<in>set new. call_handler c \<in> set (events (call_registry c) s))"
  by (cases op)
     (auto simp add: start_def pause_def resume_def stop_def setTargetFPS_def setPauseOnHidden_def
        setResumeOnShown_def addEvent_def removeEvent_remove1 onHidden_def onShow_def frame_def
        animate_def requestAnimationFrame_def Let_def simp del: js_sub.simps js_div.simps)

lemma perform_events:
  assumes "op \<noteq> Subscribe r e" and "e \<notin> set (events r s)"
  shows "e \<notin> set (events r (perform t op s))"
proof (cases op)
  case (Subscribe r' e')
  with assms show ?thesis by (auto simp add: addEvent_def)
next
  case (Unsubscribe r' e')
  with assms show ?thesis
    by (auto simp add: removeEvent_remove1 dest: notin_set_remove1)
next
  case Frame
  with assms show ?thesis by (cases r) (simp_all add: frame_def)
qed (use assms in \<open>cases r; simp add: start_def pause_def resume_def stop_def setTargetFPS_def
       setPauseOnHidden_def setResumeOnShown_def onHidden_def onShow_def Let_def\<close>)+

lemma run_never_invokes:
  assumes "e \<notin> set (events r s)" and "\<forall>x\<in>set tr. snd x \<noteq> Subscribe r e"
  shows "\<exists>new. calls (run tr s) = calls s @ new \<and> (\<forall>c\<in>set new. \<not> invokes r e c)"
  using assms
proof (induction tr arbitrary: s)
  case Nil
  then show ?case by simp
next
  case (Cons x tr)
  obtain t op where x: "x = (t, op)" by (cases x)
  with Cons.prems have op: "op \<noteq> Subscribe r e" by simp
  obtain n1 where n1: "calls (perform t op s) = calls s @ n1"
      "\<forall>c\<in>set n1. call_handler c \<in> set (events (call_registry c) s)"
    using perform_calls by blast
  from n1(2) Cons.prems(1) have n1': "\<forall>c\<in>set n1. \<not> invokes r e c"
    by (auto simp add: invokes_def)
  from op Cons.prems(1) have "e \<notin> set (events r (perform t op s))"
    by (rule perform_events)
  with Cons.IH [of "perform t op s"] Cons.prems(2)
  obtain n2 where n2: "calls (run tr (perform t op s)) = calls (perform t op s) @ n2"
      "\<forall>c\<in>set n2. \<not> invokes r e c"
    by auto
  from n1 n1' n2 x show ?case by auto
qed

lemma round_trip_multiset:
  "mset (events r (snd (addEvent e r s) (fst (addEvent e r s)))) = mset (events r s)"
  by (simp add: addEvent_def removeEvent_remove1)

text \<open>
  C9, as the claim has it: for every handler, subscribing it and calling the returned
  closure at once would keep it from being invoked. A handler that was registered before
  stays registered (\<open>round_trip_multiset\<close>: the closure removes the first entry of the
  handler, and as many entries remain as there were), and the next firing invokes it.
\<close>

theorem resubscribed_handler_still_fires:
  "calls (start 1000
            (snd (add 7 (fst (add 7 (new_Animator no_params))))
               (fst (add 7 (fst (add 7 (new_Animator no_params)))))))
     = [AnimateCall 7 (Fin 0)]"
  by (simp add: new_Animator_def no_params_def add_def addEvent_def removeEvent_def splice1_def
      start_def MAX_FPS_def animate_def requestAnimationFrame_def Let_def
      js_sub_same js_div_examples del: js_sub.simps js_div.simps)

text \<open>
  C9, amended. For every registry and every handler that is not registered in it:
  subscribing the handler and calling the returned closure at once gives back the very
  state before the subscription, so that no later operation, window event or frame invokes
  the handler through that registry as long as it is not subscribed again; and removing a
  handler that is not registered changes nothing.
\<close>

theorem unsubscribe_round_trip:
  assumes "e \<notin> set (events r s)" and "\<forall>x\<in>set tr. snd x \<noteq> Subscribe r e"
  shows "snd (addEvent e r s) (fst (addEvent e r s)) = s
         \<and> removeEvent e r s = s
         \<and> (\<forall>c\<in>set (drop (length (calls s))
                       (calls (run tr (snd (addEvent e r s) (fst (addEvent e r s)))))).
               \<not> invokes r e c)"
proof -
  have rt: "snd (addEvent e r s) (fst (addEvent e r s)) = s"
    using assms(1) by (simp add: addEvent_def removeEvent_remove1 remove1_append)
  have rm: "removeEvent e r s = s"
    using assms(1) by (simp add: removeEvent_remove1)
  from run_never_invokes [OF assms]
  obtain new where "calls (run tr s) = calls s @ new" "\<forall>c\<in>set new. \<not> invokes r e c"
    by blast
  then have "\<forall>c\<in>set (drop (length (calls s)) (calls (run tr s))). \<not> invokes r e c"
    by simp
  with rt rm show ?thesis by simp
qed

theorem unsubscribe_round_trip_witness:
  "7 \<notin> set (events AnimateEvents (fst (onPause 3 (new_Animator no_params))))
   \<and> list_all (\<lambda>x. snd x \<noteq> Subscribe AnimateEvents 7)
       [(1000::time, Start), (1016, Frame), (1020, Pause)]
   \<and> snd (addEvent 7 AnimateEvents (fst (onPause 3 (new_Animator no_params))))
         (fst (addEvent 7 AnimateEvents (fst (onPause 3 (new_Animator no_params)))))
       = fst (onPause 3 (new_Animator no_params))
   \<and> calls (run [(1000, Start), (1016, Frame), (1020, Pause)]
         (snd (addEvent 7 AnimateEvents (fst (onPause 3 (new_Animator no_params))))
            (fst (addEvent 7 AnimateEvents (fst (onPause 3 (new_Animator no_params)))))))
       = [PauseCall 3]
   \<and> \<not> invokes AnimateEvents 7 (PauseCall 3)"
  using unsubscribe_round_trip [of 7 AnimateEvents "fst (onPause 3 (new_Animator no_params))"
      "[(1000, Start), (1016, Frame), (1020, Pause)]"]
  by (simp add: new_Animator_def no_params_def onPause_def addEvent_def removeEvent_def splice1_def
      start_def pause_def frame_def MAX_FPS_def animate_def requestAnimationFrame_def Let_def
      invokes_def del: js_sub.simps js_div.simps)

section \<open>Construction with a falsy rate\<close>

text \<open>
  C10. Constructing an animator with \<open>fps\<close> equal to \<open>0\<close> gives the target rate 60 with
  \<open>ignoreTargetFPS\<close> set, the very instance that omitting \<open>fps\<close> gives; and with that
  rate and flag every run of \<open>animate\<close> on a started, un-paused animator invokes the frame
  subscribers, whatever time has elapsed, rather than firing being disabled.
\<close>

theorem fps_zero_is_uncapped:
  "new_Animator (p\<lparr>param_fps := Some (Fin 0)\<rparr>) = new_Animator (p\<lparr>param_fps := None\<rparr>)
   \<and> targetFPS (new_Animator (p\<lparr>param_fps := Some (Fin 0)\<rparr>)) = Fin 60
   \<and> ignoreTargetFPS (new_Animator (p\<lparr>param_fps := Some (Fin 0)\<rparr>))
   \<and> (\<forall>s now. targetFPS s = Fin 60 \<and> ignoreTargetFPS s \<and> 0 < startTime s \<and> \<not> isPaused s
       \<longrightarrow> calls (animate now s)
            = calls s @ map (\<lambda>event. AnimateCall event
                                      (js_sub (Fin now) (Fin (previousAnimateTime s))))
                          (animateEvents s))"
  by (simp add: new_Animator_def MAX_FPS_def animate_def requestAnimationFrame_def Let_def
      del: js_sub.simps js_div.simps)

theorem fps_zero_is_uncapped_witness:
  "targetFPS (startAnimation 1000 7 (Some (no_params\<lparr>param_fps := Some (Fin 0)\<rparr>))) = Fin 60
   \<and> ignoreTargetFPS (startAnimation 1000 7 (Some (no_params\<lparr>param_fps := Some (Fin 0)\<rparr>)))
   \<and> 0 < startTime (startAnimation 1000 7 (Some (no_params\<lparr>param_fps := Some (Fin 0)\<rparr>)))
   \<and> \<not> isPaused (startAnimation 1000 7 (Some (no_params\<lparr>param_fps := Some (Fin 0)\<rparr>)))
   \<and> calls (animate 1001 (startAnimation 1000 7 (Some (no_params\<lparr>param_fps := Some (Fin 0)\<rparr>))))
     = [AnimateCall 7 (Fin 0), AnimateCall 7 (Fin 1)]"
  using fps_zero_is_uncapped [of no_params]
  by (simp add: startAnimation_def new_Animator_def no_params_def add_def addEvent_def start_def
      MAX_FPS_def animate_def requestAnimationFrame_def Let_def
      js_sub_numeral js_sub_same js_div_examples del: js_sub.simps js_div.simps)

end
